theory Spec2Isabelle
  imports Main "HOL-Library.Sublist" "HOL-Library.Multiset"
begin

section \<open>Data model\<close>

text \<open>
  Modelled from the spec: the module \<^verbatim>\<open>./types\<close> that declares \<^verbatim>\<open>Port\<close> and
  \<^verbatim>\<open>Container\<close> is not among the sources. The fields are the ones \<^verbatim>\<open>App.tsx\<close> reads
  (\<^verbatim>\<open>PrivatePort\<close>, \<^verbatim>\<open>PublicPort\<close>, \<^verbatim>\<open>Type\<close>; \<^verbatim>\<open>Id\<close>, \<^verbatim>\<open>Names\<close>, \<^verbatim>\<open>Image\<close>, \<^verbatim>\<open>State\<close>,
  \<^verbatim>\<open>Created\<close>, \<^verbatim>\<open>Ports\<close>), with the types of the spec's data model: the private port is
  always present, the public port is optional, the creation timestamp is a number of
  seconds. \<^verbatim>\<open>Id\<close> and \<^verbatim>\<open>Image\<close> are written \<open>Id_c\<close> and \<open>Image_c\<close>, the plain names being
  constants of HOL.
\<close>

record Port =
  PrivatePort :: int
  PublicPort :: "int option"
  Type :: string

record DockerContainer =
  Id_c :: string
  Names :: "string list"
  Image_c :: string
  State :: string
  Created :: int
  Ports :: "Port list"

section \<open>Embedded navigation controller\<close>

text \<open>
  The four pieces of React state the navigation handlers read and write:
  \<^verbatim>\<open>currentUrl\<close> (\<^verbatim>\<open>string | null\<close>), \<^verbatim>\<open>iframeKey\<close>, \<^verbatim>\<open>iframeHistory\<close> and
  \<^verbatim>\<open>historyIndex\<close>. A handler runs against the state of the last render and its
  updates are applied before the next event is handled.
\<close>

record nav_state =
  currentUrl :: "string option"
  iframeKey :: int
  iframeHistory :: "string list"
  historyIndex :: int

definition initial_nav :: nav_state where
  "initial_nav = \<lparr>currentUrl = None, iframeKey = 0, iframeHistory = [], historyIndex = - 1\<rparr>"

text \<open>
  \<^verbatim>\<open>Array.prototype.slice(0, end)\<close>: a negative \<^verbatim>\<open>end\<close> counts from the end of the array,
  and the result is cut to the bounds of the array.
\<close>

definition slice0 :: "'a list \<Rightarrow> int \<Rightarrow> 'a list" where
  "slice0 xs e =
     (let len = int (length xs);
          final = (if e < 0 then max (len + e) 0 else min e len)
      in take (nat final) xs)"

text \<open>Reading \<^verbatim>\<open>xs[i]\<close>: outside the array the read gives \<^verbatim>\<open>undefined\<close>, here \<open>None\<close>.\<close>

definition index_read :: "'a list \<Rightarrow> int \<Rightarrow> 'a option" where
  "index_read xs i = (if 0 \<le> i \<and> i < int (length xs) then Some (xs ! nat i) else None)"

definition handleLinkClick :: "nav_state \<Rightarrow> string \<Rightarrow> nav_state" where
  "handleLinkClick s url =
     s\<lparr>currentUrl := Some url,
       iframeKey := iframeKey s + 1,
       iframeHistory := slice0 (iframeHistory s) (historyIndex s + 1) @ [url],
       historyIndex := historyIndex s + 1\<rparr>"

definition handleBack :: "nav_state \<Rightarrow> nav_state" where
  "handleBack s =
     (if historyIndex s > 0 then
        (let newIndex = historyIndex s - 1
         in s\<lparr>historyIndex := newIndex,
              currentUrl := index_read (iframeHistory s) newIndex,
              iframeKey := iframeKey s + 1\<rparr>)
      else s)"

definition handleForward :: "nav_state \<Rightarrow> nav_state" where
  "handleForward s =
     (if historyIndex s < int (length (iframeHistory s)) - 1 then
        (let newIndex = historyIndex s + 1
         in s\<lparr>historyIndex := newIndex,
              currentUrl := index_read (iframeHistory s) newIndex,
              iframeKey := iframeKey s + 1\<rparr>)
      else s)"

definition handleRefresh :: "nav_state \<Rightarrow> nav_state" where
  "handleRefresh s = s\<lparr>iframeKey := iframeKey s + 1\<rparr>"

datatype nav_op = Navigate string | Back | Forward | Refresh

fun nav_step :: "nav_state \<Rightarrow> nav_op \<Rightarrow> nav_state" where
  "nav_step s (Navigate url) = handleLinkClick s url"
| "nav_step s Back = handleBack s"
| "nav_step s Forward = handleForward s"
| "nav_step s Refresh = handleRefresh s"

definition nav_run :: "nav_op list \<Rightarrow> nav_state" where
  "nav_run ops = foldl nav_step initial_nav ops"

text \<open>The invariant of the controller: the index is in range and the active URL follows it.\<close>

definition nav_inv :: "nav_state \<Rightarrow> bool" where
  "nav_inv s \<longleftrightarrow>
     - 1 \<le> historyIndex s \<and> historyIndex s \<le> int (length (iframeHistory s)) - 1 \<and>
     currentUrl s = index_read (iframeHistory s) (historyIndex s)"

section \<open>Port availability calculator\<close>

text \<open>
  The effect that recomputes \<^verbatim>\<open>nextAvailablePort\<close>. \<^verbatim>\<open>usedPorts\<close> is a \<^verbatim>\<open>Set<number>\<close>;
  the two nested \<^verbatim>\<open>forEach\<close> add to it the public ports that pass the test
  \<^verbatim>\<open>port.PublicPort && port.PublicPort >= actualMinPort && port.PublicPort <= actualMaxPort\<close>,
  where an absent port and the port 0 are falsy.
\<close>

definition addUsedPort :: "int \<Rightarrow> int \<Rightarrow> Port \<Rightarrow> int set \<Rightarrow> int set" where
  "addUsedPort actualMinPort actualMaxPort port usedPorts =
     (case PublicPort port of
        None \<Rightarrow> usedPorts
      | Some p \<Rightarrow>
          if p \<noteq> 0 \<and> p \<ge> actualMinPort \<and> p \<le> actualMaxPort then insert p usedPorts
          else usedPorts)"

definition collectUsedPorts :: "int \<Rightarrow> int \<Rightarrow> DockerContainer list \<Rightarrow> int set" where
  "collectUsedPorts actualMinPort actualMaxPort cs =
     fold (\<lambda>container. fold (addUsedPort actualMinPort actualMaxPort) (Ports container)) cs {}"

text \<open>The loop \<^verbatim>\<open>for (let port = actualMinPort; port <= actualMaxPort; port++)\<close>.\<close>

function scanPorts :: "int set \<Rightarrow> int \<Rightarrow> int \<Rightarrow> int option" where
  "scanPorts usedPorts port actualMaxPort =
     (if port \<le> actualMaxPort then
        (if port \<notin> usedPorts then Some port
         else scanPorts usedPorts (port + 1) actualMaxPort)
      else None)"
  by pat_completeness auto
termination
  by (relation "measure (\<lambda>(usedPorts, port, actualMaxPort). nat (actualMaxPort + 1 - port))") auto

definition nextAvailablePort :: "DockerContainer list \<Rightarrow> int \<Rightarrow> int \<Rightarrow> int option" where
  "nextAvailablePort cs minPort maxPort =
     (let validMinPort = max 1 (min 65535 minPort);
          validMaxPort = max 1 (min 65535 maxPort);
          actualMinPort = min validMinPort validMaxPort;
          actualMaxPort = max validMinPort validMaxPort
      in scanPorts (collectUsedPorts actualMinPort actualMaxPort cs) actualMinPort actualMaxPort)"

section \<open>Strings\<close>

text \<open>
  A string is a list of characters with codes below 256. On these, \<^verbatim>\<open>toLowerCase\<close> adds
  32 to the code of the letters A to Z and of the accented capitals (codes 192 to 222
  without the multiplication sign 215) and leaves every other character as it is;
  \<^verbatim>\<open>trim\<close> removes white space and line terminators (codes 9 to 13, 32 and 160) from
  both ends; \<^verbatim>\<open>includes\<close>, here \<open>includesStr\<close>, looks for the search string at every
  position.
\<close>

definition toLowerChar :: "char \<Rightarrow> char" where
  "toLowerChar c =
     (let n = (of_char c :: nat)
      in if (65 \<le> n \<and> n \<le> 90) \<or> (192 \<le> n \<and> n \<le> 214) \<or> (216 \<le> n \<and> n \<le> 222)
         then char_of (n + 32) else c)"

definition toLowerCase :: "string \<Rightarrow> string" where
  "toLowerCase s = map toLowerChar s"

definition isWhiteSpace :: "char \<Rightarrow> bool" where
  "isWhiteSpace c =
     (let n = (of_char c :: nat)
      in n = 9 \<or> n = 10 \<or> n = 11 \<or> n = 12 \<or> n = 13 \<or> n = 32 \<or> n = 160)"

definition trim :: "string \<Rightarrow> string" where
  "trim s = rev (dropWhile isWhiteSpace (rev (dropWhile isWhiteSpace s)))"

fun startsWith :: "string \<Rightarrow> string \<Rightarrow> bool" where
  "startsWith s [] = True"
| "startsWith [] (t # ts) = False"
| "startsWith (c # cs) (t # ts) = (c = t \<and> startsWith cs ts)"

fun includesStr :: "string \<Rightarrow> string \<Rightarrow> bool" where
  "includesStr [] t = (t = [])"
| "includesStr (c # cs) t = (startsWith (c # cs) t \<or> includesStr cs t)"

section \<open>Application state and the filter/sort effect\<close>

text \<open>
  Arrays are objects: \<^verbatim>\<open>containers\<close> and \<^verbatim>\<open>filteredContainers\<close> hold references, and
  \<^verbatim>\<open>Array.prototype.sort\<close> sorts the array it is called on in place. The store maps a
  reference to the contents of its array; \<open>next_ref\<close> is the first unused reference.
\<close>

record app_state =
  heap :: "nat \<Rightarrow> DockerContainer list"
  next_ref :: nat
  containers :: nat
  filteredContainers :: nat
  loading :: bool
  error :: "string option"

text \<open>The two \<^verbatim>\<open>useState([])\<close> calls create two empty arrays; \<^verbatim>\<open>loading\<close> starts true.\<close>

definition initial_app :: app_state where
  "initial_app =
     \<lparr>heap = (\<lambda>r. []), next_ref = 2, containers = 0, filteredContainers = 1,
      loading = True, error = None\<rparr>"

definition rawList :: "app_state \<Rightarrow> DockerContainer list" where
  "rawList st = heap st (containers st)"

definition displayList :: "app_state \<Rightarrow> DockerContainer list" where
  "displayList st = heap st (filteredContainers st)"

definition newArray :: "DockerContainer list \<Rightarrow> app_state \<Rightarrow> nat \<times> app_state" where
  "newArray xs st =
     (next_ref st, st\<lparr>heap := (heap st)(next_ref st := xs), next_ref := next_ref st + 1\<rparr>)"

text \<open>
  The filter step, lines 115 to 123: \<^verbatim>\<open>filter\<close> builds a new array, and with a blank
  search term \<^verbatim>\<open>filtered\<close> is the array \<^verbatim>\<open>containers\<close> itself.
\<close>

definition matchesSearch :: "string \<Rightarrow> DockerContainer \<Rightarrow> bool" where
  "matchesSearch searchTerm container =
     list_ex (\<lambda>name. includesStr (toLowerCase name) (toLowerCase searchTerm)) (Names container)"

definition filterStep :: "app_state \<Rightarrow> string \<Rightarrow> nat \<times> app_state" where
  "filterStep st searchTerm =
     (if trim searchTerm \<noteq> [] then
        newArray (filter (matchesSearch searchTerm) (rawList st)) st
      else (containers st, st))"

datatype js_error = TypeError

text \<open>
  The comparator. The sort option is a string: the stored preference is cast to
  \<^verbatim>\<open>SortOption\<close> and not checked, so the \<^verbatim>\<open>default\<close> branch can be reached.
  \<^verbatim>\<open>a.Names[0].localeCompare(b.Names[0])\<close> throws a TypeError when \<^verbatim>\<open>a\<close> has no name and
  compares with the string \<^verbatim>\<open>undefined\<close> when \<^verbatim>\<open>b\<close> has none. The locale-aware comparison
  itself belongs to the platform and is the parameter \<open>localeCompare\<close>.
\<close>

definition localeCompareNames ::
  "(string \<Rightarrow> string \<Rightarrow> int) \<Rightarrow> DockerContainer \<Rightarrow> DockerContainer \<Rightarrow> js_error + int" where
  "localeCompareNames localeCompare a b =
     (case index_read (Names a) 0 of
        None \<Rightarrow> Inl TypeError
      | Some x \<Rightarrow>
          Inr (localeCompare x
                (case index_read (Names b) 0 of None \<Rightarrow> ''undefined'' | Some y \<Rightarrow> y)))"

definition compareContainers ::
  "(string \<Rightarrow> string \<Rightarrow> int) \<Rightarrow> string \<Rightarrow> DockerContainer \<Rightarrow> DockerContainer \<Rightarrow> js_error + int"
where
  "compareContainers localeCompare sortOption a b =
     (if sortOption = ''name-asc'' then localeCompareNames localeCompare a b
      else if sortOption = ''name-desc'' then localeCompareNames localeCompare b a
      else if sortOption = ''created-asc'' then Inr (Created b - Created a)
      else if sortOption = ''created-desc'' then Inr (Created a - Created b)
      else Inr 0)"

text \<open>
  \<^verbatim>\<open>Array.prototype.sort\<close> is stable, and with a consistent comparator its result is the
  one stable ordering of the elements; the insertion sort below computes it. The order
  of the comparator calls, and with it the result for an inconsistent comparator or the
  point where a throwing comparator stops the sort, is the implementation's.
\<close>

fun insertSorted :: "('a \<Rightarrow> 'a \<Rightarrow> js_error + int) \<Rightarrow> 'a \<Rightarrow> 'a list \<Rightarrow> js_error + 'a list" where
  "insertSorted cmp x [] = Inr [x]"
| "insertSorted cmp x (y # ys) =
     (case cmp x y of
        Inl e \<Rightarrow> Inl e
      | Inr v \<Rightarrow>
          if v \<le> 0 then Inr (x # y # ys)
          else (case insertSorted cmp x ys of Inl e \<Rightarrow> Inl e | Inr zs \<Rightarrow> Inr (y # zs)))"

fun sortArray :: "('a \<Rightarrow> 'a \<Rightarrow> js_error + int) \<Rightarrow> 'a list \<Rightarrow> js_error + 'a list" where
  "sortArray cmp [] = Inr []"
| "sortArray cmp (x # xs) =
     (case sortArray cmp xs of Inl e \<Rightarrow> Inl e | Inr ys \<Rightarrow> insertSorted cmp x ys)"

text \<open>
  The whole effect, lines 114 to 141: the sort writes its result into the array it was
  called on, and \<^verbatim>\<open>setFilteredContainers\<close> stores the reference. An exception leaves the
  effect without a next state.
\<close>

definition filterSortEffect ::
  "(string \<Rightarrow> string \<Rightarrow> int) \<Rightarrow> app_state \<Rightarrow> string \<Rightarrow> string \<Rightarrow> js_error + app_state" where
  "filterSortEffect localeCompare st searchTerm sortOption =
     (case filterStep st searchTerm of
        (filtered, st1) \<Rightarrow>
          (case sortArray (compareContainers localeCompare sortOption) (heap st1 filtered) of
             Inl e \<Rightarrow> Inl e
           | Inr ys \<Rightarrow>
               Inr (st1\<lparr>heap := (heap st1)(filtered := ys),
                        filteredContainers := filtered\<rparr>)))"

section \<open>Data fetcher\<close>

text \<open>
  \<^verbatim>\<open>await axios.get(...)\<close> either throws, and control passes to the \<^verbatim>\<open>catch\<close> block, or
  gives a response. \<open>axios_result\<close> and \<open>fetchContainers\<close> are the function on the store,
  for a response whose \<^verbatim>\<open>data\<close> is an array of containers: the array is new, and both
  setters receive that one array.
\<close>

datatype axios_result = Rejected | Resolved "DockerContainer list"

definition fetchErrorMessage :: string where
  "fetchErrorMessage =
     ''Failed to fetch container information. Make sure the Docker socket is accessible.''"

definition fetchContainers :: "app_state \<Rightarrow> axios_result \<Rightarrow> app_state" where
  "fetchContainers st res =
     (let st1 = st\<lparr>loading := True, error := None\<rparr>
      in case res of
           Resolved data \<Rightarrow>
             (case newArray data st1 of
                (r, st2) \<Rightarrow> st2\<lparr>containers := r, filteredContainers := r, loading := False\<rparr>)
         | Rejected \<Rightarrow> st1\<lparr>error := Some fetchErrorMessage, loading := False\<rparr>)"

text \<open>
  \<^verbatim>\<open>response.data\<close> has the type \<^verbatim>\<open>any\<close>: the body of a response is passed to
  \<^verbatim>\<open>setContainers\<close> and \<^verbatim>\<open>setFilteredContainers\<close> as it is, whether or not it is an array of
  containers, and \<^verbatim>\<open>setError\<close> is called with the message in the \<^verbatim>\<open>catch\<close> block only.
  \<open>OtherData\<close> is a body that is not an array of containers, kept as its text. The
  record \<open>fetch_state\<close> holds the values of the four pieces of state that
  \<^verbatim>\<open>fetchContainers\<close> sets, with any response data in the two container slots, and
  \<open>fetchContainersAny\<close> is \<^verbatim>\<open>fetchContainers\<close>, lines 155 to 170, on these values.
  \<open>valuesOf\<close> reads the four values off a state whose slots hold arrays.
\<close>

datatype response_data = ContainerArray "DockerContainer list" | OtherData string

datatype axios_outcome = Throws | Responds response_data

record fetch_state =
  containersValue :: response_data
  filteredContainersValue :: response_data
  loadingValue :: bool
  errorValue :: "string option"

definition initial_fetch_state :: fetch_state where
  "initial_fetch_state =
     \<lparr>containersValue = ContainerArray [], filteredContainersValue = ContainerArray [],
      loadingValue = True, errorValue = None\<rparr>"

definition fetchContainersAny :: "fetch_state \<Rightarrow> axios_outcome \<Rightarrow> fetch_state" where
  "fetchContainersAny s res =
     (let s1 = s\<lparr>loadingValue := True, errorValue := None\<rparr>
      in case res of
           Responds data \<Rightarrow>
             s1\<lparr>containersValue := data, filteredContainersValue := data,
                loadingValue := False\<rparr>
         | Throws \<Rightarrow> s1\<lparr>errorValue := Some fetchErrorMessage, loadingValue := False\<rparr>)"

definition valuesOf :: "app_state \<Rightarrow> fetch_state" where
  "valuesOf st =
     \<lparr>containersValue = ContainerArray (rawList st),
      filteredContainersValue = ContainerArray (displayList st),
      loadingValue = loading st, errorValue = error st\<rparr>"

section \<open>Persisted preferences\<close>

text \<open>
  \<^verbatim>\<open>localStorage\<close> is a map from keys to strings; \<^verbatim>\<open>getItem\<close> gives \<^verbatim>\<open>null\<close> for a missing
  key. \<^verbatim>\<open>parseInt(stored, 10)\<close> skips leading white space, reads an optional sign and
  then the longest run of decimal digits, and gives \<^verbatim>\<open>NaN\<close> (here \<open>None\<close>) when that run is
  empty; what follows the digits is ignored. The value is an unbounded integer here: the
  rounding of a long digit string to a double keeps it above 65535.
\<close>

definition isDigit :: "char \<Rightarrow> bool" where
  "isDigit c = (let n = (of_char c :: nat) in 48 \<le> n \<and> n \<le> 57)"

definition digitValue :: "char \<Rightarrow> int" where
  "digitValue c = int (of_char c) - 48"

definition parseInt10 :: "string \<Rightarrow> int option" where
  "parseInt10 inputString =
     (let s = dropWhile isWhiteSpace inputString;
          sign = (if s \<noteq> [] \<and> hd s = CHR ''-'' then - 1 else 1);
          s' = (if s \<noteq> [] \<and> (hd s = CHR ''+'' \<or> hd s = CHR ''-'') then tl s else s);
          z = takeWhile isDigit s'
      in if z = [] then None
         else Some (sign * foldl (\<lambda>acc c. 10 * acc + digitValue c) 0 z))"

definition getStoredPortOrDefault :: "(string \<rightharpoonup> string) \<Rightarrow> string \<Rightarrow> int \<Rightarrow> int" where
  "getStoredPortOrDefault localStorage storageKey defaultValue =
     (case localStorage storageKey of
        None \<Rightarrow> defaultValue
      | Some stored \<Rightarrow>
          if stored = [] then defaultValue
          else (case parseInt10 stored of
                  None \<Rightarrow> defaultValue
                | Some v \<Rightarrow> if v \<ge> 1 \<and> v \<le> 65535 then v else defaultValue))"

definition MIN_PORT_STORAGE_KEY :: string where
  "MIN_PORT_STORAGE_KEY = ''docker-port-viewer-min-port''"

definition MAX_PORT_STORAGE_KEY :: string where
  "MAX_PORT_STORAGE_KEY = ''docker-port-viewer-max-port''"

definition initialMinPort :: "(string \<rightharpoonup> string) \<Rightarrow> int" where
  "initialMinPort localStorage = getStoredPortOrDefault localStorage MIN_PORT_STORAGE_KEY 1024"

definition initialMaxPort :: "(string \<rightharpoonup> string) \<Rightarrow> int" where
  "initialMaxPort localStorage = getStoredPortOrDefault localStorage MAX_PORT_STORAGE_KEY 49151"

text \<open>
  \<^verbatim>\<open>value.toString()\<close>, by which the change handlers of the two port fields write a
  committed value to \<^verbatim>\<open>localStorage\<close>: the decimal digits of an integer, after a minus
  sign when it is negative.
\<close>

function digitsOf :: "nat \<Rightarrow> string" where
  "digitsOf n =
     (if n < 10 then [char_of (48 + n)] else digitsOf (n div 10) @ [char_of (48 + n mod 10)])"
  by pat_completeness auto
termination
  by (relation "measure id") auto

declare digitsOf.simps [simp del]

definition numberToString :: "int \<Rightarrow> string" where
  "numberToString v = (if v < 0 then CHR ''-'' # digitsOf (nat (- v)) else digitsOf (nat v))"

section \<open>Displayed port bindings\<close>

text \<open>
  \<^verbatim>\<open>findIndex\<close> gives the first index whose element passes the test, or \<open>-1\<close>; the callback
  of \<^verbatim>\<open>filter\<close> receives the element, its index and the array. \<^verbatim>\<open>===\<close> on the optional
  public port holds for two absent ports and for two equal numbers.
\<close>

fun findIndexFrom :: "('a \<Rightarrow> bool) \<Rightarrow> 'a list \<Rightarrow> int \<Rightarrow> int" where
  "findIndexFrom P [] i = - 1"
| "findIndexFrom P (x # xs) i = (if P x then i else findIndexFrom P xs (i + 1))"

definition findIndex :: "('a \<Rightarrow> bool) \<Rightarrow> 'a list \<Rightarrow> int" where
  "findIndex P xs = findIndexFrom P xs 0"

fun filterIndexedFrom :: "('a \<Rightarrow> int \<Rightarrow> bool) \<Rightarrow> 'a list \<Rightarrow> int \<Rightarrow> 'a list" where
  "filterIndexedFrom f [] i = []"
| "filterIndexedFrom f (x # xs) i =
     (if f x i then x # filterIndexedFrom f xs (i + 1) else filterIndexedFrom f xs (i + 1))"

definition samePorts :: "Port \<Rightarrow> Port \<Rightarrow> bool" where
  "samePorts p port \<longleftrightarrow> PublicPort p = PublicPort port \<and> PrivatePort p = PrivatePort port"

definition displayedPorts :: "Port list \<Rightarrow> Port list" where
  "displayedPorts self =
     filterIndexedFrom (\<lambda>port index. index = findIndex (\<lambda>p. samePorts p port) self) self 0"

section \<open>Auxiliary definitions for the proofs\<close>

text \<open>The public ports of a list of bindings that the calculator counts as used.\<close>

definition inRangePorts :: "int \<Rightarrow> int \<Rightarrow> Port list \<Rightarrow> int set" where
  "inRangePorts lo hi ps =
     {p. p \<noteq> 0 \<and> lo \<le> p \<and> p \<le> hi \<and> (\<exists>b\<in>set ps. PublicPort b = Some p)}"

text \<open>The container of the spec's scenarios: one binding of public port 8080 to port 80.\<close>

definition webContainer :: DockerContainer where
  "webContainer =
     \<lparr>Id_c = ''c1'', Names = [''/web''], Image_c = ''nginx'', State = ''running'',
      Created = 100,
      Ports = [\<lparr>PrivatePort = 80, PublicPort = Some 8080, Type = ''tcp''\<rparr>]\<rparr>"

text \<open>The contents of the array \<^verbatim>\<open>filtered\<close> after the filter step, before the sort.\<close>

definition filteredList :: "app_state \<Rightarrow> string \<Rightarrow> DockerContainer list" where
  "filteredList st searchTerm = (case filterStep st searchTerm of (filtered, st1) \<Rightarrow> heap st1 filtered)"

text \<open>A second container, older than \<open>webContainer\<close>, and the state after one fetch of both.\<close>

definition dbContainer :: DockerContainer where
  "dbContainer =
     \<lparr>Id_c = ''c2'', Names = [''/db''], Image_c = ''postgres'', State = ''running'',
      Created = 50,
      Ports = [\<lparr>PrivatePort = 5432, PublicPort = None, Type = ''tcp''\<rparr>]\<rparr>"

definition fetchedTwo :: app_state where
  "fetchedTwo = fetchContainers initial_app (Resolved [dbContainer, webContainer])"

section \<open>Navigation: proofs\<close>

lemma slice0_in_range:
  assumes "0 \<le> e" "e \<le> int (length xs)"
  shows "slice0 xs e = take (nat e) xs"
  using assms by (simp add: slice0_def Let_def min_def)

lemma nav_inv_initial: "nav_inv initial_nav"
  by (simp add: nav_inv_def initial_nav_def index_read_def)

lemma nav_inv_handleLinkClick:
  assumes "nav_inv s"
  shows "nav_inv (handleLinkClick s url)"
proof -
  from assms have lo: "0 \<le> historyIndex s + 1"
    and hi: "historyIndex s + 1 \<le> int (length (iframeHistory s))"
    by (simp_all add: nav_inv_def)
  have len: "length (take (nat (historyIndex s + 1)) (iframeHistory s)) = nat (historyIndex s + 1)"
    using hi by simp
  show ?thesis
    using lo hi len
    by (simp add: nav_inv_def handleLinkClick_def slice0_in_range index_read_def nth_append)
qed

lemma nav_inv_handleBack:
  assumes "nav_inv s"
  shows "nav_inv (handleBack s)"
  using assms by (auto simp: nav_inv_def handleBack_def Let_def)

lemma nav_inv_handleForward:
  assumes "nav_inv s"
  shows "nav_inv (handleForward s)"
  using assms by (auto simp: nav_inv_def handleForward_def Let_def)

lemma nav_inv_handleRefresh:
  assumes "nav_inv s"
  shows "nav_inv (handleRefresh s)"
  using assms by (simp add: nav_inv_def handleRefresh_def)

lemma nav_inv_step:
  assumes "nav_inv s"
  shows "nav_inv (nav_step s op)"
  using assms
  by (cases op)
    (simp_all add: nav_inv_handleLinkClick nav_inv_handleBack nav_inv_handleForward
      nav_inv_handleRefresh)

lemma nav_inv_foldl:
  assumes "nav_inv s"
  shows "nav_inv (foldl nav_step s ops)"
  using assms by (induction ops arbitrary: s) (simp_all add: nav_inv_step)

lemma nav_inv_run: "nav_inv (nav_run ops)"
  unfolding nav_run_def by (rule nav_inv_foldl [OF nav_inv_initial])

text \<open>
  Claim C2. In a state whose index lies between \<open>-1\<close> and the last position of the
  history, Navigate keeps the first \<open>index + 1\<close> entries of the history, appends the new
  URL and moves the index to the new last position. From the initial state,
  Navigate a, Navigate b, Back, Navigate c leave the history \<open>[a, c]\<close> and the index 1.
\<close>

theorem navigate_truncates_and_appends:
  "(- 1 \<le> historyIndex s \<and> historyIndex s \<le> int (length (iframeHistory s)) - 1 \<longrightarrow>
      iframeHistory (handleLinkClick s u) =
        take (nat (historyIndex s + 1)) (iframeHistory s) @ [u] \<and>
      historyIndex (handleLinkClick s u) =
        int (length (iframeHistory (handleLinkClick s u))) - 1) \<and>
   iframeHistory (nav_run [Navigate a, Navigate b, Back, Navigate c]) = [a, c] \<and>
   historyIndex (nav_run [Navigate a, Navigate b, Back, Navigate c]) = 1"
proof (intro conjI impI)
  assume "- 1 \<le> historyIndex s \<and> historyIndex s \<le> int (length (iframeHistory s)) - 1"
  then have lo: "0 \<le> historyIndex s + 1"
    and hi: "historyIndex s + 1 \<le> int (length (iframeHistory s))"
    by simp_all
  show "iframeHistory (handleLinkClick s u) =
      take (nat (historyIndex s + 1)) (iframeHistory s) @ [u]"
    using lo hi by (simp add: handleLinkClick_def slice0_in_range)
  then show "historyIndex (handleLinkClick s u) =
      int (length (iframeHistory (handleLinkClick s u))) - 1"
    using lo hi by (simp add: handleLinkClick_def)
next
  show "iframeHistory (nav_run [Navigate a, Navigate b, Back, Navigate c]) = [a, c]"
    by (simp add: nav_run_def initial_nav_def handleLinkClick_def handleBack_def
        slice0_def Let_def)
  show "historyIndex (nav_run [Navigate a, Navigate b, Back, Navigate c]) = 1"
    by (simp add: nav_run_def initial_nav_def handleLinkClick_def handleBack_def
        slice0_def Let_def)
qed

theorem navigate_truncates_and_appends_witness:
  "- 1 \<le> (0::int) \<and> (0::int) \<le> int (length [''x'', ''y'', ''z'']) - 1 \<and>
   iframeHistory
     (handleLinkClick
       \<lparr>currentUrl = Some ''x'', iframeKey = 3, iframeHistory = [''x'', ''y'', ''z''],
        historyIndex = 0\<rparr> ''w'') = [''x'', ''w''] \<and>
   historyIndex
     (handleLinkClick
       \<lparr>currentUrl = Some ''x'', iframeKey = 3, iframeHistory = [''x'', ''y'', ''z''],
        historyIndex = 0\<rparr> ''w'') = 1"
  using navigate_truncates_and_appends
    [of "\<lparr>currentUrl = Some ''x'', iframeKey = 3, iframeHistory = [''x'', ''y'', ''z''],
          historyIndex = 0\<rparr>" "''w''" "''a''" "''b''" "''c''"]
  by simp

text \<open>
  Claim C6. In every state reached from the initial state by a sequence of Navigate,
  Back and Forward (and Refresh) operations, the index lies between \<open>-1\<close> and the length
  of the history minus one.
\<close>

theorem history_index_in_range:
  "- 1 \<le> historyIndex (nav_run ops) \<and>
   historyIndex (nav_run ops) \<le> int (length (iframeHistory (nav_run ops))) - 1"
  using nav_inv_run [of ops] by (simp add: nav_inv_def)

text \<open>
  Claim C10. In every state reached from the initial state by a sequence of Navigate,
  Back, Forward and Refresh operations, the active URL is the history entry at the
  index whenever the index is at least 0, and there is no active URL exactly when the
  index is \<open>-1\<close>.
\<close>

theorem active_url_follows_index:
  "(historyIndex (nav_run ops) \<ge> 0 \<longrightarrow>
      currentUrl (nav_run ops) =
        Some (iframeHistory (nav_run ops) ! nat (historyIndex (nav_run ops)))) \<and>
   (currentUrl (nav_run ops) = None \<longleftrightarrow> historyIndex (nav_run ops) = - 1)"
  using nav_inv_run [of ops] by (auto simp: nav_inv_def index_read_def split: if_splits)

theorem active_url_follows_index_witness:
  "historyIndex (nav_run [Navigate ''a'', Navigate ''b'', Refresh, Back, Forward, Back]) \<ge> 0 \<and>
   currentUrl (nav_run [Navigate ''a'', Navigate ''b'', Refresh, Back, Forward, Back]) =
     Some ''a''"
  using active_url_follows_index
    [of "[Navigate ''a'', Navigate ''b'', Refresh, Back, Forward, Back]"]
  by (simp add: nav_run_def initial_nav_def handleLinkClick_def handleBack_def
      handleForward_def handleRefresh_def slice0_def Let_def index_read_def)

section \<open>Port availability calculator: proofs\<close>

lemma addUsedPort_single:
  "addUsedPort lo hi b U = U \<union> inRangePorts lo hi [b]"
  by (cases "PublicPort b") (auto simp: addUsedPort_def inRangePorts_def)

lemma inRangePorts_Cons:
  "inRangePorts lo hi (b # ps) = inRangePorts lo hi [b] \<union> inRangePorts lo hi ps"
  by (auto simp: inRangePorts_def)

lemma fold_addUsedPort:
  "fold (addUsedPort lo hi) ps U = U \<union> inRangePorts lo hi ps"
proof (induction ps arbitrary: U)
  case Nil
  show ?case by (simp add: inRangePorts_def)
next
  case (Cons b ps)
  have "fold (addUsedPort lo hi) (b # ps) U = fold (addUsedPort lo hi) ps (addUsedPort lo hi b U)"
    by simp
  also have "\<dots> = (U \<union> inRangePorts lo hi [b]) \<union> inRangePorts lo hi ps"
    by (simp only: Cons.IH addUsedPort_single)
  finally show ?case
    by (simp only: inRangePorts_Cons [of lo hi b ps] Un_assoc)
qed

lemma fold_containers_used:
  "fold (\<lambda>container. fold (addUsedPort lo hi) (Ports container)) cs U =
     U \<union> (\<Union>c\<in>set cs. inRangePorts lo hi (Ports c))"
  by (induction cs arbitrary: U) (auto simp: fold_addUsedPort)

lemma collectUsedPorts_mem:
  "p \<in> collectUsedPorts lo hi cs \<longleftrightarrow>
     p \<noteq> 0 \<and> lo \<le> p \<and> p \<le> hi \<and> (\<exists>c\<in>set cs. \<exists>b\<in>set (Ports c). PublicPort b = Some p)"
  by (auto simp: collectUsedPorts_def fold_containers_used inRangePorts_def)

lemma scanPorts_Some_iff:
  "scanPorts U p hi = Some r \<longleftrightarrow>
     p \<le> r \<and> r \<le> hi \<and> r \<notin> U \<and> (\<forall>q. p \<le> q \<and> q < r \<longrightarrow> q \<in> U)"
proof (induction U p hi rule: scanPorts.induct)
  case (1 U p hi)
  show ?case
  proof (cases "p \<le> hi")
    case False
    then show ?thesis by (subst scanPorts.simps) auto
  next
    case le: True
    show ?thesis
    proof (cases "p \<in> U")
      case False
      with le show ?thesis
        by (subst scanPorts.simps) (auto simp: not_less intro: antisym)
    next
      case True
      have step: "scanPorts U p hi = scanPorts U (p + 1) hi"
        using le True by (subst scanPorts.simps) simp
      have "(p + 1 \<le> r \<and> r \<le> hi \<and> r \<notin> U \<and> (\<forall>q. p + 1 \<le> q \<and> q < r \<longrightarrow> q \<in> U)) \<longleftrightarrow>
            (p \<le> r \<and> r \<le> hi \<and> r \<notin> U \<and> (\<forall>q. p \<le> q \<and> q < r \<longrightarrow> q \<in> U))"
      proof -
        have "q \<in> U" if "p \<le> q" "\<forall>q. p + 1 \<le> q \<and> q < r \<longrightarrow> q \<in> U" "q < r" for q
          using that True by (cases "q = p") auto
        moreover have "p + 1 \<le> r" if "p \<le> r" "r \<notin> U"
          using that True by (cases "r = p") auto
        ultimately show ?thesis by auto
      qed
      with "1.IH" [OF le] True step show ?thesis by simp
    qed
  qed
qed

lemma scanPorts_None_iff:
  "scanPorts U p hi = None \<longleftrightarrow> (\<forall>q. p \<le> q \<and> q \<le> hi \<longrightarrow> q \<in> U)"
proof (induction U p hi rule: scanPorts.induct)
  case (1 U p hi)
  show ?case
  proof (cases "p \<le> hi \<and> p \<in> U")
    case False
    then show ?thesis by (subst scanPorts.simps) auto
  next
    case True
    then have step: "scanPorts U p hi = scanPorts U (p + 1) hi"
      by (subst scanPorts.simps) simp
    have "(\<forall>q. p + 1 \<le> q \<and> q \<le> hi \<longrightarrow> q \<in> U) \<longleftrightarrow> (\<forall>q. p \<le> q \<and> q \<le> hi \<longrightarrow> q \<in> U)"
    proof -
      have "q \<in> U" if "p \<le> q" "\<forall>q. p + 1 \<le> q \<and> q \<le> hi \<longrightarrow> q \<in> U" "q \<le> hi" for q
        using that True by (cases "q = p") auto
      then show ?thesis by auto
    qed
    with "1.IH" True step show ?thesis by simp
  qed
qed


text \<open>
  Claim C1. Each endpoint is clamped into \<open>[1, 65535]\<close> and the clamped pair is ordered.
  The result is the smallest integer of that range that is no container's public port,
  and it is the absent value \<open>None\<close> exactly when every integer of the range is a
  public port of some container.
\<close>

theorem next_available_port_least_free:
  "let a = (if minPort < 1 then 1 else if 65535 < minPort then 65535 else minPort);
       b = (if maxPort < 1 then 1 else if 65535 < maxPort then 65535 else maxPort);
       lo = min a b;
       hi = max a b;
       taken = {p. \<exists>c\<in>set cs. \<exists>port\<in>set (Ports c). PublicPort port = Some p}
   in 1 \<le> lo \<and> lo \<le> hi \<and> hi \<le> 65535 \<and>
      (\<forall>r. nextAvailablePort cs minPort maxPort = Some r \<longleftrightarrow>
             lo \<le> r \<and> r \<le> hi \<and> r \<notin> taken \<and> (\<forall>q. lo \<le> q \<and> q < r \<longrightarrow> q \<in> taken)) \<and>
      (nextAvailablePort cs minPort maxPort = None \<longleftrightarrow>
             (\<forall>q. lo \<le> q \<and> q \<le> hi \<longrightarrow> q \<in> taken))"
proof -
  define a where "a = (if minPort < 1 then 1 else if 65535 < minPort then 65535 else minPort)"
  define b where "b = (if maxPort < 1 then 1 else if 65535 < maxPort then 65535 else maxPort)"
  define lo where "lo = min a b"
  define hi where "hi = max a b"
  define taken where "taken = {p. \<exists>c\<in>set cs. \<exists>port\<in>set (Ports c). PublicPort port = Some p}"
  define U where "U = collectUsedPorts lo hi cs"
  have a: "max 1 (min 65535 minPort) = a" and b: "max 1 (min 65535 maxPort) = b"
    by (simp_all add: a_def b_def)
  have ra: "1 \<le> a \<and> a \<le> 65535" and rb: "1 \<le> b \<and> b \<le> 65535"
    by (simp_all add: a_def b_def)
  have bounds: "1 \<le> lo \<and> lo \<le> hi \<and> hi \<le> 65535"
    using ra rb by (simp add: lo_def hi_def)
  have nap: "nextAvailablePort cs minPort maxPort = scanPorts U lo hi"
    by (simp add: nextAvailablePort_def Let_def a b lo_def hi_def U_def)
  have mem: "q \<in> U \<longleftrightarrow> q \<in> taken" if "lo \<le> q" "q \<le> hi" for q
    using that bounds by (auto simp: U_def taken_def collectUsedPorts_mem)
  have some: "scanPorts U lo hi = Some r \<longleftrightarrow>
      lo \<le> r \<and> r \<le> hi \<and> r \<notin> taken \<and> (\<forall>q. lo \<le> q \<and> q < r \<longrightarrow> q \<in> taken)" for r
  proof -
    have "(lo \<le> r \<and> r \<le> hi \<and> r \<notin> U \<and> (\<forall>q. lo \<le> q \<and> q < r \<longrightarrow> q \<in> U)) \<longleftrightarrow>
          (lo \<le> r \<and> r \<le> hi \<and> r \<notin> taken \<and> (\<forall>q. lo \<le> q \<and> q < r \<longrightarrow> q \<in> taken))"
      using mem by (meson less_le_trans less_imp_le order_trans)
    then show ?thesis by (simp only: scanPorts_Some_iff)
  qed
  have none: "scanPorts U lo hi = None \<longleftrightarrow> (\<forall>q. lo \<le> q \<and> q \<le> hi \<longrightarrow> q \<in> taken)"
  proof -
    have "(\<forall>q. lo \<le> q \<and> q \<le> hi \<longrightarrow> q \<in> U) \<longleftrightarrow> (\<forall>q. lo \<le> q \<and> q \<le> hi \<longrightarrow> q \<in> taken)"
      using mem by blast
    then show ?thesis by (simp only: scanPorts_None_iff)
  qed
  have "1 \<le> lo \<and> lo \<le> hi \<and> hi \<le> 65535 \<and>
      (\<forall>r. nextAvailablePort cs minPort maxPort = Some r \<longleftrightarrow>
             lo \<le> r \<and> r \<le> hi \<and> r \<notin> taken \<and> (\<forall>q. lo \<le> q \<and> q < r \<longrightarrow> q \<in> taken)) \<and>
      (nextAvailablePort cs minPort maxPort = None \<longleftrightarrow>
             (\<forall>q. lo \<le> q \<and> q \<le> hi \<longrightarrow> q \<in> taken))"
    unfolding nap using bounds some none by blast
  then show ?thesis
    unfolding Let_def a_def b_def lo_def hi_def taken_def .
qed

theorem next_available_port_least_free_witness:
  "nextAvailablePort [webContainer] 8081 8082 = Some 8081 \<and>
   nextAvailablePort [webContainer] 8080 8080 = None"
proof
  have "\<forall>r. nextAvailablePort [webContainer] 8081 8082 = Some r \<longleftrightarrow>
      8081 \<le> r \<and> r \<le> 8082 \<and> r \<noteq> 8080 \<and> (\<forall>q. 8081 \<le> q \<and> q < r \<longrightarrow> q = 8080)"
    using next_available_port_least_free [of 8081 8082 "[webContainer]"]
    by (simp add: Let_def webContainer_def)
  then show "nextAvailablePort [webContainer] 8081 8082 = Some 8081" by simp
next
  have "nextAvailablePort [webContainer] 8080 8080 = None \<longleftrightarrow>
      (\<forall>q::int. 8080 \<le> q \<and> q \<le> 8080 \<longrightarrow> q = 8080)"
    using next_available_port_least_free [of 8080 8080 "[webContainer]"]
    by (simp add: Let_def webContainer_def)
  then show "nextAvailablePort [webContainer] 8080 8080 = None" by simp
qed

section \<open>Displayed port bindings: proofs\<close>

lemma findIndexFrom_bound:
  "findIndexFrom P xs i = - 1 \<or> i \<le> findIndexFrom P xs i"
proof (induction xs arbitrary: i)
  case Nil
  show ?case by simp
next
  case (Cons x xs)
  from Cons.IH [of "i + 1"] show ?case by auto
qed

lemma findIndexFrom_first:
  assumes "0 \<le> i" "k < length xs"
  shows "findIndexFrom P xs i = i + int k \<longleftrightarrow> P (xs ! k) \<and> (\<forall>j<k. \<not> P (xs ! j))"
  using assms
proof (induction xs arbitrary: i k)
  case Nil
  then show ?case by simp
next
  case (Cons x xs)
  show ?case
  proof (cases "P x")
    case True
    then show ?thesis by (cases k) auto
  next
    case notP: False
    show ?thesis
    proof (cases k)
      case 0
      from findIndexFrom_bound [of P xs "i + 1"] Cons.prems(1)
      have "findIndexFrom P xs (i + 1) \<noteq> i" by auto
      with notP 0 show ?thesis by simp
    next
      case (Suc k')
      with Cons.prems have k': "k' < length xs" and i': "0 \<le> i + 1" by simp_all
      have "(\<forall>j<Suc k'. \<not> P ((x # xs) ! j)) \<longleftrightarrow> (\<forall>j<k'. \<not> P (xs ! j))"
        using notP by (auto simp: less_Suc_eq_0_disj)
      with Cons.IH [OF i' k'] notP Suc show ?thesis
        by (simp add: algebra_simps)
    qed
  qed
qed

lemma filterIndexedFrom_indices:
  "filterIndexedFrom f xs i =
     map ((!) xs) (filter (\<lambda>k. f (xs ! k) (i + int k)) [0..<length xs])"
proof (induction xs arbitrary: i)
  case Nil
  show ?case by simp
next
  case (Cons x xs)
  have upt: "[0..<length (x # xs)] = 0 # map Suc [0..<length xs]"
    by (simp add: upt_conv_Cons map_Suc_upt del: upt_Suc)
  have tl: "map ((!) (x # xs)) (filter (\<lambda>k. f ((x # xs) ! k) (i + int k)) (map Suc [0..<length xs])) =
      filterIndexedFrom f xs (i + 1)"
    by (simp add: Cons.IH filter_map comp_def algebra_simps)
  show ?case
    unfolding upt using tl by simp
qed

text \<open>
  Claim C9. The displayed bindings are the bindings at the positions where a pair
  (public port, private port) occurs for the first time, in input order: a binding is
  shown exactly when no earlier binding has the same pair. Two bindings of public port
  8080 to private port 80 are displayed as one entry.
\<close>

theorem displayed_ports_first_occurrences:
  "displayedPorts ps =
     map ((!) ps)
       (filter
         (\<lambda>k. \<forall>j<k. (PublicPort (ps ! j), PrivatePort (ps ! j)) \<noteq>
                       (PublicPort (ps ! k), PrivatePort (ps ! k)))
         [0..<length ps]) \<and>
   displayedPorts
     [\<lparr>PrivatePort = 80, PublicPort = Some 8080, Type = t1\<rparr>,
      \<lparr>PrivatePort = 80, PublicPort = Some 8080, Type = t2\<rparr>] =
     [\<lparr>PrivatePort = 80, PublicPort = Some 8080, Type = t1\<rparr>]"
proof
  have "(int k = findIndex (\<lambda>p. samePorts p (ps ! k)) ps) \<longleftrightarrow>
      (\<forall>j<k. (PublicPort (ps ! j), PrivatePort (ps ! j)) \<noteq>
              (PublicPort (ps ! k), PrivatePort (ps ! k)))"
    if "k \<in> set [0..<length ps]" for k
  proof -
    from that have k: "k < length ps" by simp
    have "findIndexFrom (\<lambda>p. samePorts p (ps ! k)) ps 0 = 0 + int k \<longleftrightarrow>
        samePorts (ps ! k) (ps ! k) \<and> (\<forall>j<k. \<not> samePorts (ps ! j) (ps ! k))"
      by (rule findIndexFrom_first [OF _ k]) simp
    then show ?thesis
      by (auto simp: findIndex_def samePorts_def)
  qed
  then have "filter (\<lambda>k. int k = findIndex (\<lambda>p. samePorts p (ps ! k)) ps) [0..<length ps] =
      filter (\<lambda>k. \<forall>j<k. (PublicPort (ps ! j), PrivatePort (ps ! j)) \<noteq>
              (PublicPort (ps ! k), PrivatePort (ps ! k))) [0..<length ps]"
    by (intro filter_cong refl)
  then show "displayedPorts ps =
     map ((!) ps)
       (filter
         (\<lambda>k. \<forall>j<k. (PublicPort (ps ! j), PrivatePort (ps ! j)) \<noteq>
                       (PublicPort (ps ! k), PrivatePort (ps ! k)))
         [0..<length ps])"
    by (simp add: displayedPorts_def filterIndexedFrom_indices)
next
  show "displayedPorts
     [\<lparr>PrivatePort = 80, PublicPort = Some 8080, Type = t1\<rparr>,
      \<lparr>PrivatePort = 80, PublicPort = Some 8080, Type = t2\<rparr>] =
     [\<lparr>PrivatePort = 80, PublicPort = Some 8080, Type = t1\<rparr>]"
    by (simp add: displayedPorts_def findIndex_def samePorts_def)
qed

theorem displayed_ports_first_occurrences_witness:
  "displayedPorts
     [\<lparr>PrivatePort = 80, PublicPort = Some 8080, Type = ''tcp''\<rparr>,
      \<lparr>PrivatePort = 443, PublicPort = None, Type = ''tcp''\<rparr>,
      \<lparr>PrivatePort = 80, PublicPort = Some 8080, Type = ''udp''\<rparr>,
      \<lparr>PrivatePort = 443, PublicPort = None, Type = ''tcp''\<rparr>] =
     [\<lparr>PrivatePort = 80, PublicPort = Some 8080, Type = ''tcp''\<rparr>,
      \<lparr>PrivatePort = 443, PublicPort = None, Type = ''tcp''\<rparr>]"
proof -
  have u: "[0..<4] = [0, Suc 0, Suc (Suc 0), Suc (Suc (Suc 0))]"
    by (simp add: upt_conv_Cons numeral_eq_Suc)
  show ?thesis
    by (subst displayed_ports_first_occurrences [THEN conjunct1])
      (simp add: u All_less_Suc)
qed

section \<open>Persisted preferences: proofs\<close>

lemma isDigit_char_of:
  assumes "d < 10"
  shows "isDigit (char_of (48 + d))" and "digitValue (char_of (48 + d)) = int d"
  using assms by (simp_all add: isDigit_def digitValue_def Let_def)

lemma digitsOf_small: "n < 10 \<Longrightarrow> digitsOf n = [char_of (48 + n)]"
  by (subst digitsOf.simps) simp

lemma digitsOf_large:
  "\<not> n < 10 \<Longrightarrow> digitsOf n = digitsOf (n div 10) @ [char_of (48 + n mod 10)]"
  by (subst digitsOf.simps) simp

lemma digitsOf_not_Nil: "digitsOf n \<noteq> []"
  by (cases "n < 10") (simp_all add: digitsOf_small digitsOf_large)

lemma digitsOf_all_digits: "\<forall>c\<in>set (digitsOf n). isDigit c"
proof (induction n rule: digitsOf.induct)
  case (1 n)
  show ?case
  proof (cases "n < 10")
    case True
    then show ?thesis
      by (simp add: digitsOf_small isDigit_char_of)
  next
    case False
    have "n mod 10 < 10" by simp
    with False "1.IH" show ?thesis
      by (simp add: digitsOf_large isDigit_char_of)
  qed
qed

lemma digitsOf_value:
  "foldl (\<lambda>acc c. 10 * acc + digitValue c) 0 (digitsOf n) = int n"
proof (induction n rule: digitsOf.induct)
  case (1 n)
  show ?case
  proof (cases "n < 10")
    case True
    then show ?thesis
      by (simp add: digitsOf_small isDigit_char_of)
  next
    case False
    have m: "n mod 10 < 10" by simp
    have "foldl (\<lambda>acc c. 10 * acc + digitValue c) 0 (digitsOf n) =
        10 * int (n div 10) + int (n mod 10)"
      using False "1.IH" by (simp add: digitsOf_large isDigit_char_of(2) [OF m])
    also have "\<dots> = int (10 * (n div 10) + n mod 10)"
      by (simp only: of_nat_add of_nat_mult of_nat_numeral)
    also have "\<dots> = int n"
      by simp
    finally show ?thesis .
  qed
qed

lemma isDigit_not_space_or_sign:
  assumes "isDigit c"
  shows "\<not> isWhiteSpace c" and "c \<noteq> CHR ''+''" and "c \<noteq> CHR ''-''"
  using assms by (auto simp: isDigit_def isWhiteSpace_def Let_def)

lemma parseInt10_digitsOf: "parseInt10 (digitsOf n) = Some (int n)"
proof -
  obtain c cs where cs: "digitsOf n = c # cs"
    using digitsOf_not_Nil [of n] by (cases "digitsOf n") auto
  have c: "isDigit c"
    using digitsOf_all_digits [of n] cs by simp
  have drop: "dropWhile isWhiteSpace (digitsOf n) = digitsOf n"
    using isDigit_not_space_or_sign(1) [OF c] by (simp add: cs)
  have take: "takeWhile isDigit (digitsOf n) = digitsOf n"
    using digitsOf_all_digits [of n] by simp
  have signs: "hd (digitsOf n) \<noteq> CHR ''+''" "hd (digitsOf n) \<noteq> CHR ''-''"
    using isDigit_not_space_or_sign(2,3) [OF c] by (simp_all add: cs)
  show ?thesis
    by (simp add: parseInt10_def Let_def drop take signs digitsOf_not_Nil digitsOf_value)
qed

lemma parseInt10_Nil: "parseInt10 [] = None"
  by (simp add: parseInt10_def)

lemma stored_decimal:
  assumes "1 \<le> v" "v \<le> 65535"
  shows "getStoredPortOrDefault (localStorage(k \<mapsto> numberToString v)) k d = v"
  using assms
  by (simp add: getStoredPortOrDefault_def numberToString_def digitsOf_not_Nil
      parseInt10_digitsOf)

lemma stored_parse:
  "getStoredPortOrDefault localStorage k d =
     (case localStorage k of
        None \<Rightarrow> d
      | Some stored \<Rightarrow>
          (case parseInt10 stored of
             None \<Rightarrow> d
           | Some v \<Rightarrow> if 1 \<le> v \<and> v \<le> 65535 then v else d))"
  by (simp add: getStoredPortOrDefault_def parseInt10_Nil split: option.splits)

lemma parseInt10_abc: "parseInt10 ''abc'' = None"
  by (simp add: parseInt10_def isWhiteSpace_def isDigit_def)

lemma dropWhile_space_prefix:
  assumes "list_all isWhiteSpace ws" and "s = [] \<or> \<not> isWhiteSpace (hd s)"
  shows "dropWhile isWhiteSpace (ws @ s) = s"
proof -
  have "dropWhile isWhiteSpace (ws @ s) = dropWhile isWhiteSpace s"
    using assms(1) by (intro dropWhile_append2) (simp add: list_all_iff)
  also have "\<dots> = s"
    using assms(2) by (cases s) auto
  finally show ?thesis .
qed

lemma takeWhile_digit_prefix:
  assumes "list_all isDigit ds" and "rest = [] \<or> \<not> isDigit (hd rest)"
  shows "takeWhile isDigit (ds @ rest) = ds"
proof -
  have "takeWhile isDigit (ds @ rest) = ds @ takeWhile isDigit rest"
    using assms(1) by (intro takeWhile_append2) (simp add: list_all_iff)
  also have "takeWhile isDigit rest = []"
    using assms(2) by (cases rest) auto
  finally show ?thesis by simp
qed

lemma zero_digit: "isDigit CHR ''0''" "digitValue CHR ''0'' = 0"
  by (simp_all add: isDigit_def digitValue_def)

lemma zeros_value:
  "foldl (\<lambda>acc c. 10 * acc + digitValue c) 0 (replicate z CHR ''0'') = 0"
  by (induction z) (simp_all add: zero_digit)

lemma numeral_all_digits: "list_all isDigit (replicate z CHR ''0'' @ digitsOf n)"
  using digitsOf_all_digits [of n] by (auto simp: list_all_iff zero_digit)

lemma numeral_not_Nil: "replicate z CHR ''0'' @ digitsOf n \<noteq> []"
  by (simp add: digitsOf_not_Nil)

lemma numeral_value:
  "foldl (\<lambda>acc c. 10 * acc + digitValue c) 0 (replicate z CHR ''0'' @ digitsOf n) = int n"
  by (simp add: zeros_value digitsOf_value)

lemma digits_value_nonneg:
  assumes "list_all isDigit ds" and "0 \<le> a"
  shows "0 \<le> foldl (\<lambda>acc c. 10 * acc + digitValue c) a ds"
  using assms
proof (induction ds arbitrary: a)
  case Nil
  then show ?case by simp
next
  case (Cons c ds)
  from Cons.prems have "0 \<le> 10 * a + digitValue c"
    by (simp add: isDigit_def digitValue_def Let_def)
  with Cons show ?case by simp
qed

lemma parseInt10_digit_run:
  assumes ws: "list_all isWhiteSpace ws"
    and ds: "list_all isDigit ds" "ds \<noteq> []"
    and rest: "rest = [] \<or> \<not> isDigit (hd rest)"
  shows "parseInt10 (ws @ ds @ rest) =
      Some (foldl (\<lambda>acc c. 10 * acc + digitValue c) 0 ds)"
    and "parseInt10 (ws @ CHR ''+'' # ds @ rest) =
      Some (foldl (\<lambda>acc c. 10 * acc + digitValue c) 0 ds)"
proof -
  obtain c cs where cs: "ds = c # cs"
    using ds(2) by (cases ds) auto
  have c: "isDigit c"
    using ds(1) by (simp add: cs)
  have take: "takeWhile isDigit (ds @ rest) = ds"
    using ds(1) rest by (rule takeWhile_digit_prefix)
  have drop: "dropWhile isWhiteSpace (ws @ ds @ rest) = ds @ rest"
    using ws isDigit_not_space_or_sign(1) [OF c]
    by (intro dropWhile_space_prefix) (simp_all add: cs)
  show "parseInt10 (ws @ ds @ rest) =
      Some (foldl (\<lambda>acc c. 10 * acc + digitValue c) 0 ds)"
    unfolding parseInt10_def Let_def drop
    using isDigit_not_space_or_sign(2,3) [OF c] ds(2) take
    by (simp add: cs)
  have drop': "dropWhile isWhiteSpace (ws @ CHR ''+'' # ds @ rest) = CHR ''+'' # ds @ rest"
    using ws by (intro dropWhile_space_prefix) (simp_all add: isWhiteSpace_def)
  show "parseInt10 (ws @ CHR ''+'' # ds @ rest) =
      Some (foldl (\<lambda>acc c. 10 * acc + digitValue c) 0 ds)"
    unfolding parseInt10_def Let_def drop'
    using ds(2) take by simp
qed

lemma parseInt10_numeral:
  assumes "list_all isWhiteSpace ws"
    and "sg = [] \<or> sg = ''+''"
    and "rest = [] \<or> \<not> isDigit (hd rest)"
  shows "parseInt10 (ws @ sg @ replicate z CHR ''0'' @ digitsOf n @ rest) = Some (int n)"
proof -
  define ds where "ds = replicate z CHR ''0'' @ digitsOf n"
  have ds: "list_all isDigit ds" "ds \<noteq> []"
    and v: "foldl (\<lambda>acc c. 10 * acc + digitValue c) 0 ds = int n"
    unfolding ds_def by (rule numeral_all_digits numeral_not_Nil numeral_value)+
  have "parseInt10 (ws @ sg @ ds @ rest) = Some (int n)"
    using assms(2) parseInt10_digit_run [OF assms(1) ds assms(3)] v by auto
  then show ?thesis by (simp add: ds_def)
qed

lemma parseInt10_minus:
  assumes ws: "list_all isWhiteSpace ws"
  shows "parseInt10 (ws @ CHR ''-'' # s) = None \<or> (\<exists>v\<le>0. parseInt10 (ws @ CHR ''-'' # s) = Some v)"
proof -
  have drop: "dropWhile isWhiteSpace (ws @ CHR ''-'' # s) = CHR ''-'' # s"
    using ws by (intro dropWhile_space_prefix) (simp_all add: isWhiteSpace_def)
  have "list_all isDigit (takeWhile isDigit s)"
    by (simp add: list_all_iff) (meson set_takeWhileD)
  then have "0 \<le> foldl (\<lambda>acc c. 10 * acc + digitValue c) 0 (takeWhile isDigit s)"
    by (rule digits_value_nonneg) simp
  then show ?thesis
    unfolding parseInt10_def Let_def drop by simp
qed

lemma parseInt10_plus_no_digit:
  assumes ws: "list_all isWhiteSpace ws"
    and s: "s = [] \<or> \<not> isDigit (hd s)"
  shows "parseInt10 (ws @ CHR ''+'' # s) = None"
proof -
  have drop: "dropWhile isWhiteSpace (ws @ CHR ''+'' # s) = CHR ''+'' # s"
    using ws by (intro dropWhile_space_prefix) (simp_all add: isWhiteSpace_def)
  have "takeWhile isDigit s = []"
    using s by (cases s) auto
  then show ?thesis
    unfolding parseInt10_def Let_def drop by simp
qed

lemma parseInt10_no_digit:
  assumes ws: "list_all isWhiteSpace ws"
    and s: "s = [] \<or>
      (\<not> isWhiteSpace (hd s) \<and> \<not> isDigit (hd s) \<and> hd s \<noteq> CHR ''+'' \<and> hd s \<noteq> CHR ''-'')"
  shows "parseInt10 (ws @ s) = None"
proof -
  have drop: "dropWhile isWhiteSpace (ws @ s) = s"
    using ws s by (intro dropWhile_space_prefix) auto
  have "takeWhile isDigit s = []"
    using s by (cases s) auto
  then show ?thesis
    unfolding parseInt10_def Let_def drop using s by auto
qed


lemma stored_none:
  "localStorage k = None \<Longrightarrow> getStoredPortOrDefault localStorage k d = d"
  by (simp add: getStoredPortOrDefault_def)

lemma stored_numeral:
  assumes "list_all isWhiteSpace ws"
    and "sg = [] \<or> sg = ''+''"
    and "rest = [] \<or> \<not> isDigit (hd rest)"
    and "localStorage k = Some (ws @ sg @ replicate z CHR ''0'' @ digitsOf n @ rest)"
  shows "getStoredPortOrDefault localStorage k d = (if 1 \<le> n \<and> n \<le> 65535 then int n else d)"
  using parseInt10_numeral [OF assms(1-3), of z n] assms(4)
  by (simp add: stored_parse)

lemma stored_minus:
  assumes "list_all isWhiteSpace ws"
    and "localStorage k = Some (ws @ CHR ''-'' # s)"
  shows "getStoredPortOrDefault localStorage k d = d"
  using parseInt10_minus [OF assms(1), of s] assms(2)
  by (auto simp: stored_parse)

lemma stored_plus_no_digit:
  assumes "list_all isWhiteSpace ws"
    and "s = [] \<or> \<not> isDigit (hd s)"
    and "localStorage k = Some (ws @ CHR ''+'' # s)"
  shows "getStoredPortOrDefault localStorage k d = d"
  using parseInt10_plus_no_digit [OF assms(1,2)] assms(3)
  by (simp add: stored_parse)

lemma stored_no_digit:
  assumes "list_all isWhiteSpace ws"
    and "s = [] \<or>
      (\<not> isWhiteSpace (hd s) \<and> \<not> isDigit (hd s) \<and> hd s \<noteq> CHR ''+'' \<and> hd s \<noteq> CHR ''-'')"
    and "localStorage k = Some (ws @ s)"
  shows "getStoredPortOrDefault localStorage k d = d"
  using parseInt10_no_digit [OF assms(1,2)] assms(3)
  by (simp add: stored_parse)

lemma digit_chars: "char_of (48::nat) = CHR ''0''" "char_of (56::nat) = CHR ''8''"
  by code_simp+

lemma digitsOf_8080: "digitsOf 8080 = ''8080''"
  by (simp add: digitsOf.simps [of 8080] digitsOf.simps [of 808] digitsOf.simps [of 80]
      digitsOf.simps [of 8] digit_chars)

text \<open>
  Claim C8, as amended. Loading the min port or the max port reads the stored string as
  \<^verbatim>\<open>parseInt(stored, 10)\<close> does: after leading white space and an optional plus sign, the
  longest run of decimal digits is the number, whatever follows it. The result is that
  number when it lies in \<open>[1, 65535]\<close>, and the default (1024 for the min port, 49151
  for the max port) in every other case: no stored string, a minus sign, no digit at
  the start, a number out of range. A number of the range written in decimal is loaded
  back as itself, and the stored string \<open>abc\<close> loads as 1024.
\<close>

theorem stored_port_digit_prefix_or_default:
  "initialMinPort localStorage =
     getStoredPortOrDefault localStorage MIN_PORT_STORAGE_KEY 1024 \<and>
   initialMaxPort localStorage =
     getStoredPortOrDefault localStorage MAX_PORT_STORAGE_KEY 49151 \<and>
   (localStorage k = None \<longrightarrow> getStoredPortOrDefault localStorage k d = d) \<and>
   (list_all isWhiteSpace ws \<and> (sg = [] \<or> sg = ''+'') \<and>
    (rest = [] \<or> \<not> isDigit (hd rest)) \<and>
    localStorage k = Some (ws @ sg @ replicate z CHR ''0'' @ digitsOf n @ rest) \<longrightarrow>
      getStoredPortOrDefault localStorage k d =
        (if 1 \<le> n \<and> n \<le> 65535 then int n else d)) \<and>
   (list_all isWhiteSpace ws \<and> localStorage k = Some (ws @ CHR ''-'' # s) \<longrightarrow>
      getStoredPortOrDefault localStorage k d = d) \<and>
   (list_all isWhiteSpace ws \<and> (s = [] \<or> \<not> isDigit (hd s)) \<and>
    localStorage k = Some (ws @ CHR ''+'' # s) \<longrightarrow>
      getStoredPortOrDefault localStorage k d = d) \<and>
   (list_all isWhiteSpace ws \<and>
    (s = [] \<or>
     (\<not> isWhiteSpace (hd s) \<and> \<not> isDigit (hd s) \<and> hd s \<noteq> CHR ''+'' \<and> hd s \<noteq> CHR ''-'')) \<and>
    localStorage k = Some (ws @ s) \<longrightarrow>
      getStoredPortOrDefault localStorage k d = d) \<and>
   (1 \<le> v \<and> v \<le> 65535 \<longrightarrow>
      initialMinPort (localStorage(MIN_PORT_STORAGE_KEY \<mapsto> numberToString v)) = v \<and>
      initialMaxPort (localStorage(MAX_PORT_STORAGE_KEY \<mapsto> numberToString v)) = v) \<and>
   (localStorage MIN_PORT_STORAGE_KEY = Some ''abc'' \<longrightarrow> initialMinPort localStorage = 1024)"
proof (intro conjI impI)
  show "initialMinPort localStorage =
      getStoredPortOrDefault localStorage MIN_PORT_STORAGE_KEY 1024"
    by (rule initialMinPort_def)
  show "initialMaxPort localStorage =
      getStoredPortOrDefault localStorage MAX_PORT_STORAGE_KEY 49151"
    by (rule initialMaxPort_def)
next
  assume "localStorage k = None"
  then show "getStoredPortOrDefault localStorage k d = d" by (rule stored_none)
next
  assume "list_all isWhiteSpace ws \<and> (sg = [] \<or> sg = ''+'') \<and>
    (rest = [] \<or> \<not> isDigit (hd rest)) \<and>
    localStorage k = Some (ws @ sg @ replicate z CHR ''0'' @ digitsOf n @ rest)"
  then show "getStoredPortOrDefault localStorage k d =
      (if 1 \<le> n \<and> n \<le> 65535 then int n else d)"
    by (intro stored_numeral [of ws sg rest]) simp_all
next
  assume "list_all isWhiteSpace ws \<and> localStorage k = Some (ws @ CHR ''-'' # s)"
  then show "getStoredPortOrDefault localStorage k d = d"
    by (intro stored_minus [of ws _ _ s]) simp_all
next
  assume "list_all isWhiteSpace ws \<and> (s = [] \<or> \<not> isDigit (hd s)) \<and>
    localStorage k = Some (ws @ CHR ''+'' # s)"
  then show "getStoredPortOrDefault localStorage k d = d"
    by (intro stored_plus_no_digit [of ws s]) simp_all
next
  assume "list_all isWhiteSpace ws \<and>
    (s = [] \<or>
     (\<not> isWhiteSpace (hd s) \<and> \<not> isDigit (hd s) \<and> hd s \<noteq> CHR ''+'' \<and> hd s \<noteq> CHR ''-'')) \<and>
    localStorage k = Some (ws @ s)"
  then show "getStoredPortOrDefault localStorage k d = d"
    by (intro stored_no_digit [of ws s]) simp_all
next
  assume v: "1 \<le> v \<and> v \<le> 65535"
  then show "initialMinPort (localStorage(MIN_PORT_STORAGE_KEY \<mapsto> numberToString v)) = v"
    unfolding initialMinPort_def by (intro stored_decimal) simp_all
  from v show "initialMaxPort (localStorage(MAX_PORT_STORAGE_KEY \<mapsto> numberToString v)) = v"
    unfolding initialMaxPort_def by (intro stored_decimal) simp_all
next
  assume "localStorage MIN_PORT_STORAGE_KEY = Some ''abc''"
  then show "initialMinPort localStorage = 1024"
    by (simp add: initialMinPort_def stored_parse parseInt10_abc)
qed

theorem stored_port_digit_prefix_or_default_witness:
  "initialMinPort [MIN_PORT_STORAGE_KEY \<mapsto> '' +08080px''] = 8080 \<and>
   initialMaxPort [MAX_PORT_STORAGE_KEY \<mapsto> ''-5''] = 49151 \<and>
   initialMinPort [MIN_PORT_STORAGE_KEY \<mapsto> ''abc''] = 1024"
proof (intro conjI)
  note inst = stored_port_digit_prefix_or_default
    [where localStorage = "[MIN_PORT_STORAGE_KEY \<mapsto> '' +08080px'']"
      and k = MIN_PORT_STORAGE_KEY and d = 1024 and ws = "'' ''" and sg = "''+''"
      and rest = "''px''" and z = "Suc 0" and n = 8080]
  have hyp: "list_all isWhiteSpace '' '' \<and> (''+'' = [] \<or> ''+'' = ''+'') \<and>
      (''px'' = [] \<or> \<not> isDigit (hd ''px'')) \<and>
      [MIN_PORT_STORAGE_KEY \<mapsto> '' +08080px''] MIN_PORT_STORAGE_KEY =
        Some ('' '' @ ''+'' @ replicate (Suc 0) CHR ''0'' @ digitsOf 8080 @ ''px'')"
    by (simp add: isWhiteSpace_def isDigit_def digitsOf_8080)
  have "getStoredPortOrDefault [MIN_PORT_STORAGE_KEY \<mapsto> '' +08080px'']
      MIN_PORT_STORAGE_KEY 1024 = (if 1 \<le> (8080::nat) \<and> (8080::nat) \<le> 65535 then int 8080 else 1024)"
    using inst [THEN conjunct2, THEN conjunct2, THEN conjunct2, THEN conjunct1] hyp
    by (rule mp)
  then show "initialMinPort [MIN_PORT_STORAGE_KEY \<mapsto> '' +08080px''] = 8080"
    by (simp only: inst [THEN conjunct1]) simp
next
  note inst = stored_port_digit_prefix_or_default
    [where localStorage = "[MAX_PORT_STORAGE_KEY \<mapsto> ''-5'']"
      and k = MAX_PORT_STORAGE_KEY and d = 49151 and ws = "[]" and s = "''5''"]
  have hyp: "list_all isWhiteSpace [] \<and>
      [MAX_PORT_STORAGE_KEY \<mapsto> ''-5''] MAX_PORT_STORAGE_KEY = Some ([] @ CHR ''-'' # ''5'')"
    by simp
  have "getStoredPortOrDefault [MAX_PORT_STORAGE_KEY \<mapsto> ''-5'']
      MAX_PORT_STORAGE_KEY 49151 = 49151"
    using inst [THEN conjunct2, THEN conjunct2, THEN conjunct2, THEN conjunct2,
        THEN conjunct1] hyp
    by (rule mp)
  then show "initialMaxPort [MAX_PORT_STORAGE_KEY \<mapsto> ''-5''] = 49151"
    by (simp only: inst [THEN conjunct2, THEN conjunct1])
next
  note inst = stored_port_digit_prefix_or_default
    [where localStorage = "[MIN_PORT_STORAGE_KEY \<mapsto> ''abc'']"]
  have hyp: "[MIN_PORT_STORAGE_KEY \<mapsto> ''abc''] MIN_PORT_STORAGE_KEY = Some ''abc''"
    by simp
  show "initialMinPort [MIN_PORT_STORAGE_KEY \<mapsto> ''abc''] = 1024"
    using inst [THEN conjunct2, THEN conjunct2, THEN conjunct2, THEN conjunct2,
        THEN conjunct2, THEN conjunct2, THEN conjunct2, THEN conjunct2] hyp
    by (rule mp)
qed

lemma parseInt10_examples:
  "parseInt10 ''12abc'' = Some 12" "parseInt10 ''1.9'' = Some 1"
  by code_simp+

lemma not_numerals: "\<not> list_all isDigit ''12abc''" "\<not> list_all isDigit ''1.9''"
  by code_simp+

lemma digit_prefix_loads:
  "initialMinPort [MIN_PORT_STORAGE_KEY \<mapsto> ''12abc''] = 12"
  "initialMinPort [MIN_PORT_STORAGE_KEY \<mapsto> ''1.9''] = 1"
  by (simp_all add: initialMinPort_def stored_parse parseInt10_examples)

text \<open>
  Stored strings that are not integers and yet do not load as the default: \<open>12abc\<close>
  loads as 12 and \<open>1.9\<close> loads as 1.
\<close>

theorem stored_digit_prefix_counterexample:
  "initialMinPort [MIN_PORT_STORAGE_KEY \<mapsto> ''12abc''] = 12 \<and>
   initialMinPort [MIN_PORT_STORAGE_KEY \<mapsto> ''1.9''] = 1 \<and>
   \<not> list_all isDigit ''12abc'' \<and> \<not> list_all isDigit ''1.9''"
  by (intro conjI digit_prefix_loads not_numerals)

section \<open>Data fetcher: proofs\<close>

text \<open>
  On a payload that is an array of containers, and when the request throws, the model
  with the store and the model on values agree.
\<close>

lemma fetchContainers_values:
  "valuesOf (fetchContainers st (Resolved payload)) =
     fetchContainersAny (valuesOf st) (Responds (ContainerArray payload))"
  "valuesOf (fetchContainers st Rejected) = fetchContainersAny (valuesOf st) Throws"
  by (simp_all add: valuesOf_def fetchContainers_def fetchContainersAny_def newArray_def
      rawList_def displayList_def Let_def)

lemma fetchContainers_rejected_store:
  "heap (fetchContainers st Rejected) = heap st"
  "containers (fetchContainers st Rejected) = containers st"
  by (simp_all add: fetchContainers_def Let_def)

lemma valuesOf_initial: "valuesOf initial_app = initial_fetch_state"
  by (simp add: valuesOf_def initial_app_def initial_fetch_state_def rawList_def
      displayList_def)

text \<open>
  Claim C7, as amended. Whatever the container list and the error before, a fetch
  whose request gives a response stores the response payload as the container list,
  whatever the payload is, and leaves no error; a fetch whose request throws leaves the
  container list as it was (the empty list when nothing was fetched before) and sets
  the error message.
\<close>

theorem fetch_stores_response_or_keeps:
  "containersValue (fetchContainersAny s (Responds payload)) = payload \<and>
   errorValue (fetchContainersAny s (Responds payload)) = None \<and>
   containersValue (fetchContainersAny s Throws) = containersValue s \<and>
   errorValue (fetchContainersAny s Throws) = Some fetchErrorMessage \<and>
   fetchErrorMessage \<noteq> [] \<and>
   containersValue (fetchContainersAny initial_fetch_state Throws) = ContainerArray []"
  by (simp add: fetchContainersAny_def initial_fetch_state_def fetchErrorMessage_def Let_def)

text \<open>
  A response whose body is not an array of containers: after a fetch that had stored
  the container \<open>/web\<close>, the body replaces the list and no error is set.
\<close>

theorem malformed_payload_counterexample:
  "containersValue
     (fetchContainersAny
       (valuesOf (fetchContainers initial_app (Resolved [webContainer])))
       (Responds (OtherData ''{}''))) = OtherData ''{}'' \<and>
   containersValue (valuesOf (fetchContainers initial_app (Resolved [webContainer]))) =
     ContainerArray [webContainer] \<and>
   OtherData ''{}'' \<noteq> ContainerArray [webContainer] \<and>
   errorValue
     (fetchContainersAny
       (valuesOf (fetchContainers initial_app (Resolved [webContainer])))
       (Responds (OtherData ''{}''))) = None"
  by (simp add: fetchContainersAny_def valuesOf_def fetchContainers_def newArray_def
      rawList_def displayList_def initial_app_def Let_def)

section \<open>Filter and sort: proofs\<close>

lemma startsWith_prefix: "startsWith s t \<longleftrightarrow> prefix t s"
  by (induction s t rule: startsWith.induct) auto

lemma includesStr_sublist: "includesStr s t \<longleftrightarrow> sublist t s"
proof (induction s)
  case Nil
  show ?case by simp
next
  case (Cons c cs)
  show ?case
    by (simp only: includesStr.simps Cons.IH startsWith_prefix sublist_Cons_right) 
qed

lemma dropWhile_all_iff:
  "(\<forall>x\<in>set (dropWhile P xs). P x) \<longleftrightarrow> (\<forall>x\<in>set xs. P x)"
proof
  assume all: "\<forall>x\<in>set (dropWhile P xs). P x"
  have "dropWhile P xs = []"
  proof (rule ccontr)
    assume ne: "dropWhile P xs \<noteq> []"
    then have "\<not> P (hd (dropWhile P xs))" by (rule hd_dropWhile)
    moreover have "hd (dropWhile P xs) \<in> set (dropWhile P xs)" using ne by simp
    ultimately show False using all by blast
  qed
  then show "\<forall>x\<in>set xs. P x" by simp
next
  assume "\<forall>x\<in>set xs. P x"
  then show "\<forall>x\<in>set (dropWhile P xs). P x"
    by (blast dest: set_dropWhileD)
qed

lemma trim_Nil_iff: "trim s = [] \<longleftrightarrow> (\<forall>c\<in>set s. isWhiteSpace c)"
  by (simp add: trim_def dropWhile_all_iff)

lemma matchesSearch_iff:
  "matchesSearch searchTerm c \<longleftrightarrow>
     (\<exists>name\<in>set (Names c). sublist (toLowerCase searchTerm) (toLowerCase name))"
  by (simp add: matchesSearch_def list_ex_iff includesStr_sublist)

lemma filteredList_eq:
  "filteredList st searchTerm =
     (if trim searchTerm \<noteq> [] then filter (matchesSearch searchTerm) (rawList st) else rawList st)"
  by (simp add: filteredList_def filterStep_def newArray_def rawList_def)

lemma rawList_fetchedTwo: "rawList fetchedTwo = [dbContainer, webContainer]"
  by (simp add: fetchedTwo_def fetchContainers_def newArray_def rawList_def initial_app_def Let_def)

lemma lower_WE: "toLowerCase ''WE'' = ''we''"
  by code_simp

lemma lower_web: "toLowerCase ''/web'' = ''/web''"
  by code_simp

lemma lower_db: "toLowerCase ''/db'' = ''/db''"
  by code_simp

lemma lower_space: "toLowerCase '' '' = '' ''"
  by code_simp

lemma created_values: "Created dbContainer = 50" "Created webContainer = 100"
  by (simp_all add: dbContainer_def webContainer_def)

lemma containers_differ: "dbContainer \<noteq> webContainer"
  by (simp add: dbContainer_def webContainer_def)

lemma insertSorted_key:
  assumes "\<And>a b. cmp a b = Inr (f a - f b)"
  shows "insertSorted cmp x ys = Inr (insort_key f x ys)"
  by (induction ys) (simp_all add: assms)

lemma sortArray_key:
  fixes f :: "'a \<Rightarrow> int"
  assumes "\<And>a b. cmp a b = Inr (f a - f b)"
  shows "sortArray cmp xs = Inr (sort_key f xs)"
  by (induction xs) (simp_all add: insertSorted_key [OF assms] sort_key_simps)

lemma compare_created_asc:
  "compareContainers lc ''created-asc'' a b = Inr ((- Created a) - (- Created b))"
  by (simp add: compareContainers_def)

lemma compare_created_desc:
  "compareContainers lc ''created-desc'' a b = Inr (Created a - Created b)"
  by (simp add: compareContainers_def)

lemma filterSortEffect_sorted:
  assumes "sortArray (compareContainers lc sortOption) (filteredList st searchTerm) = Inr ys"
  shows "\<exists>st'. filterSortEffect lc st searchTerm sortOption = Inr st' \<and> displayList st' = ys"
  using assms
  by (cases "filterStep st searchTerm")
    (simp add: filterSortEffect_def filteredList_def displayList_def)

lemma filterSortEffect_created_asc:
  "\<exists>st'. filterSortEffect lc st searchTerm ''created-asc'' = Inr st' \<and>
     displayList st' = sort_key (\<lambda>c. - Created c) (filteredList st searchTerm)"
  by (rule filterSortEffect_sorted) (rule sortArray_key, rule compare_created_asc)

lemma filterSortEffect_created_desc:
  "\<exists>st'. filterSortEffect lc st searchTerm ''created-desc'' = Inr st' \<and>
     displayList st' = sort_key Created (filteredList st searchTerm)"
  by (rule filterSortEffect_sorted) (rule sortArray_key, rule compare_created_desc)

text \<open>
  Claim C5, as amended. The filtered list is a subsequence of the raw list, in its
  order. For a search term with at least one character that is not white space, it
  holds exactly the containers with a name in which the lower-cased term occurs as a
  substring of the lower-cased name. For a search term that is empty or made of white
  space only, it is the whole raw list.
\<close>

theorem filter_keeps_matching_containers:
  "subseq (filteredList st searchTerm) (rawList st) \<and>
   ((\<exists>c\<in>set searchTerm. \<not> isWhiteSpace c) \<longrightarrow>
      filteredList st searchTerm =
        filter (\<lambda>c. \<exists>name\<in>set (Names c). sublist (toLowerCase searchTerm) (toLowerCase name))
          (rawList st)) \<and>
   ((\<forall>c\<in>set searchTerm. isWhiteSpace c) \<longrightarrow> filteredList st searchTerm = rawList st)"
proof (intro conjI impI)
  show "subseq (filteredList st searchTerm) (rawList st)"
    by (simp add: filteredList_eq)
next
  assume "\<exists>c\<in>set searchTerm. \<not> isWhiteSpace c"
  then have "trim searchTerm \<noteq> []" by (simp add: trim_Nil_iff)
  then have "filteredList st searchTerm = filter (matchesSearch searchTerm) (rawList st)"
    by (simp add: filteredList_eq)
  also have "\<dots> = filter (\<lambda>c. \<exists>name\<in>set (Names c). sublist (toLowerCase searchTerm) (toLowerCase name)) (rawList st)"
    by (rule filter_cong) (simp_all add: matchesSearch_iff)
  finally show "filteredList st searchTerm =
        filter (\<lambda>c. \<exists>name\<in>set (Names c). sublist (toLowerCase searchTerm) (toLowerCase name))
          (rawList st)" .
next
  assume "\<forall>c\<in>set searchTerm. isWhiteSpace c"
  then have "trim searchTerm = []" by (simp add: trim_Nil_iff)
  then show "filteredList st searchTerm = rawList st"
    by (simp add: filteredList_eq)
qed

theorem filter_keeps_matching_containers_witness:
  "\<not> isWhiteSpace CHR ''W'' \<and> filteredList fetchedTwo ''WE'' = [webContainer] \<and>
   isWhiteSpace CHR '' '' \<and> filteredList fetchedTwo '' '' = [dbContainer, webContainer]"
proof -
  have ne: "\<exists>c\<in>set ''WE''. \<not> isWhiteSpace c" by (simp add: isWhiteSpace_def)
  have ws: "\<forall>c\<in>set '' ''. isWhiteSpace c" by (simp add: isWhiteSpace_def)
  have m1: "\<not> (\<exists>name\<in>set (Names dbContainer). sublist (toLowerCase ''WE'') (toLowerCase name))"
    by (simp add: dbContainer_def lower_WE lower_db flip: includesStr_sublist)
  have m2: "\<exists>name\<in>set (Names webContainer). sublist (toLowerCase ''WE'') (toLowerCase name)"
    by (simp add: webContainer_def lower_WE lower_web flip: includesStr_sublist)
  from filter_keeps_matching_containers [of fetchedTwo "''WE''"] ne
  have "filteredList fetchedTwo ''WE'' = [webContainer]"
    using m1 m2 by (simp add: rawList_fetchedTwo)
  moreover from filter_keeps_matching_containers [of fetchedTwo "'' ''"] ws
  have "filteredList fetchedTwo '' '' = [dbContainer, webContainer]"
    by (simp add: rawList_fetchedTwo)
  moreover have "\<not> isWhiteSpace CHR ''W''" and "isWhiteSpace CHR '' ''"
    by (simp_all add: isWhiteSpace_def)
  ultimately show ?thesis by blast
qed

text \<open>
  The search term of one space: the filter keeps the container \<open>/web\<close>, although no
  space occurs in its name.
\<close>

theorem blank_search_term_counterexample:
  "filteredList (fetchContainers initial_app (Resolved [webContainer])) '' '' = [webContainer] \<and>
   Names webContainer = [''/web''] \<and>
   \<not> sublist (toLowerCase '' '') (toLowerCase ''/web'')"
  by (simp add: filteredList_eq trim_def isWhiteSpace_def rawList_def fetchContainers_def newArray_def
      initial_app_def Let_def webContainer_def lower_web lower_space
      flip: includesStr_sublist)

text \<open>
  Claim C3. With the option \<open>created-asc\<close> the effect succeeds and the display list is
  the filtered list ordered newest first (creation timestamps descending); with
  \<open>created-desc\<close> it is the filtered list ordered oldest first (ascending).
\<close>

theorem created_sort_orders:
  "(\<exists>st'. filterSortEffect localeCompare st searchTerm ''created-asc'' = Inr st' \<and>
      sorted_wrt (\<lambda>a b. Created a \<ge> Created b) (displayList st') \<and>
      mset (displayList st') = mset (filteredList st searchTerm)) \<and>
   (\<exists>st'. filterSortEffect localeCompare st searchTerm ''created-desc'' = Inr st' \<and>
      sorted_wrt (\<lambda>a b. Created a \<le> Created b) (displayList st') \<and>
      mset (displayList st') = mset (filteredList st searchTerm))"
proof
  obtain st' where e: "filterSortEffect localeCompare st searchTerm ''created-asc'' = Inr st'"
    and d: "displayList st' = sort_key (\<lambda>c. - Created c) (filteredList st searchTerm)"
    using filterSortEffect_created_asc by blast
  have "sorted (map (\<lambda>c. - Created c) (displayList st'))"
    unfolding d by (rule sorted_sort_key)
  then have "sorted_wrt (\<lambda>a b. Created a \<ge> Created b) (displayList st')"
    by (simp add: sorted_map)
  moreover have "mset (displayList st') = mset (filteredList st searchTerm)"
    unfolding d by simp
  ultimately show "\<exists>st'. filterSortEffect localeCompare st searchTerm ''created-asc'' = Inr st' \<and>
      sorted_wrt (\<lambda>a b. Created a \<ge> Created b) (displayList st') \<and>
      mset (displayList st') = mset (filteredList st searchTerm)"
    using e by blast
next
  obtain st' where e: "filterSortEffect localeCompare st searchTerm ''created-desc'' = Inr st'"
    and d: "displayList st' = sort_key Created (filteredList st searchTerm)"
    using filterSortEffect_created_desc by blast
  have "sorted (map Created (displayList st'))"
    unfolding d by (rule sorted_sort_key)
  then have "sorted_wrt (\<lambda>a b. Created a \<le> Created b) (displayList st')"
    by (simp add: sorted_map)
  moreover have "mset (displayList st') = mset (filteredList st searchTerm)"
    unfolding d by simp
  ultimately show "\<exists>st'. filterSortEffect localeCompare st searchTerm ''created-desc'' = Inr st' \<and>
      sorted_wrt (\<lambda>a b. Created a \<le> Created b) (displayList st') \<and>
      mset (displayList st') = mset (filteredList st searchTerm)"
    using e by blast
qed

theorem created_sort_orders_witness:
  "\<exists>st'. filterSortEffect (\<lambda>a b. 0) fetchedTwo ''b'' ''created-asc'' = Inr st' \<and>
      displayList st' = [webContainer, dbContainer]"
proof -
  have l: "filteredList fetchedTwo ''b'' = [dbContainer, webContainer]"
    by (simp add: filteredList_eq rawList_fetchedTwo trim_def isWhiteSpace_def matchesSearch_def
        dbContainer_def webContainer_def toLowerCase_def toLowerChar_def)
  from created_sort_orders [of "\<lambda>a b. 0" fetchedTwo "''b''"]
  obtain st' where e: "filterSortEffect (\<lambda>a b. 0) fetchedTwo ''b'' ''created-asc'' = Inr st'"
    and s: "sorted_wrt (\<lambda>a b. Created a \<ge> Created b) (displayList st')"
    and m: "mset (displayList st') = mset [dbContainer, webContainer]"
    unfolding l by blast
  from m have len: "length (displayList st') = 2"
    by (metis length_Cons list.size(3) size_mset numeral_2_eq_2)
  then obtain x y where xy: "displayList st' = [x, y]"
    by (cases "displayList st'"; cases "tl (displayList st')") auto
  from m have "set (displayList st') = set [dbContainer, webContainer]"
    by (rule mset_eq_setD)
  with xy have "{x, y} = {dbContainer, webContainer}" by simp
  then have "(x = dbContainer \<and> y = webContainer) \<or> (x = webContainer \<and> y = dbContainer)"
    by (auto simp: doubleton_eq_iff)
  with s xy have "x = webContainer \<and> y = dbContainer"
    by (auto simp: created_values)
  with e xy show ?thesis by simp
qed

text \<open>
  With a search term that is not blank the sort works on the new array that \<^verbatim>\<open>filter\<close>
  built, and the raw list stays as it was.
\<close>

lemma nonblank_search_keeps_raw_list:
  assumes "trim searchTerm \<noteq> []"
    and "containers st < next_ref st"
    and "filterSortEffect localeCompare st searchTerm sortOption = Inr st'"
  shows "rawList st' = rawList st"
  using assms
  by (auto simp: filterSortEffect_def filterStep_def newArray_def rawList_def
      split: sum.splits)

text \<open>
  Claim C4, at the input where the code departs from it. After a fetch of the containers
  \<open>/db\<close> (created at 50) and \<open>/web\<close> (created at 100), the effect with an empty search
  term and the option \<open>created-asc\<close> sorts the array \<^verbatim>\<open>containers\<close> itself: the raw list
  is \<open>[/db, /web]\<close> before and \<open>[/web, /db]\<close> after.
\<close>

theorem blank_search_sort_reorders_raw_list:
  "rawList fetchedTwo = [dbContainer, webContainer] \<and>
   (\<forall>localeCompare. \<exists>st'.
      filterSortEffect localeCompare fetchedTwo [] ''created-asc'' = Inr st' \<and>
      rawList st' = [webContainer, dbContainer] \<and>
      rawList st' \<noteq> rawList fetchedTwo)"
proof (intro conjI allI)
  show "rawList fetchedTwo = [dbContainer, webContainer]" by (rule rawList_fetchedTwo)
next
  fix localeCompare :: "string \<Rightarrow> string \<Rightarrow> int"
  have s: "sortArray (compareContainers localeCompare ''created-asc'') [dbContainer, webContainer] =
      Inr [webContainer, dbContainer]"
    by (simp add: compare_created_asc created_values)
  have f: "filterStep fetchedTwo [] = (containers fetchedTwo, fetchedTwo)"
    by (simp add: filterStep_def trim_def)
  have h: "heap fetchedTwo (containers fetchedTwo) = [dbContainer, webContainer]"
    using rawList_fetchedTwo by (simp add: rawList_def)
  have "filterSortEffect localeCompare fetchedTwo [] ''created-asc'' =
      Inr (fetchedTwo\<lparr>heap := (heap fetchedTwo)(containers fetchedTwo := [webContainer, dbContainer]),
                     filteredContainers := containers fetchedTwo\<rparr>)"
    by (simp only: filterSortEffect_def f prod.case h s sum.case)
  then show "\<exists>st'. filterSortEffect localeCompare fetchedTwo [] ''created-asc'' = Inr st' \<and>
      rawList st' = [webContainer, dbContainer] \<and> rawList st' \<noteq> rawList fetchedTwo"
    using containers_differ by (simp add: rawList_def h)
qed

end
